theory Spec2Isabelle
  imports Main
begin

section \<open>The image album plugin (\<^verbatim>\<open>src/plugins/image_album/image_album.py\<close>)\<close>

text \<open>
  The module is sequential glue around three things it does not own: the photo service
  (HTTP), Python's random generator and the imaging library. Each of them is a parameter
  of the model: the service is a record of response functions, the generator a sequence
  of raw draws, the imaging calls a record of functions. What the module does to the
  outside world (HTTP requests, the OS command) is returned as a list of effects, in the
  order the code performs them. Calls to the logger are left out.
\<close>

subsection \<open>Errors\<close>

text \<open>
  Every exception the code can raise is a value. \<open>RuntimeError\<close> carries its message;
  \<open>OtherError\<close> stands for whatever else an outside library raises.
\<close>

datatype error =
    HTTPError
  | KeyError
  | TypeError
  | IndexError
  | AttributeError
  | ValueError
  | RuntimeError string
  | OtherError string

subsection \<open>Data of the service\<close>

text \<open>
  A key of a JSON object is absent (subscripting raises \<open>KeyError\<close>), present with
  \<^verbatim>\<open>null\<close>, or present with a value.
\<close>

datatype 'a field = Absent | Null | Val 'a

record album =
  albumName :: string
  id_of_album :: string

record exif_info =
  exifImageWidth :: "int field"
  exifImageHeight :: "int field"

record asset =
  id_of_asset :: string
  exifInfo :: "exif_info field"

text \<open>The decoded bitmap: its pixel size and its bytes.\<close>

record image =
  width :: int
  height :: int
  content :: string

text \<open>The JSON body of a metadata search and the two kinds of request the client sends
  (URL, value of the \<^verbatim>\<open>x-api-key\<close> header, body).\<close>

record body =
  albumIds :: "string list"
  size_body :: nat
  page_body :: nat
  withExif :: bool

datatype request =
    GET string string
  | POST string string body

datatype effect =
    Http request
  | System string

text \<open>
  The answer to a metadata search: \<^verbatim>\<open>assets_data.get("assets", {}).get("items", [])\<close>
  reads two keys, each of which may be missing.
\<close>

record assets_page =
  items :: "asset list option"

record search_response =
  assets :: "assets_page option"

text \<open>
  The service: what \<^verbatim>\<open>raise_for_status\<close> and \<^verbatim>\<open>json()\<close> (or
  \<^verbatim>\<open>Image.open\<close> on the bytes) give for a request. \<open>Inl\<close> is the exception raised.
\<close>

record service =
  list_albums :: "request \<Rightarrow> error + album list"
  search_metadata :: "request \<Rightarrow> error + search_response"
  download_original :: "request \<Rightarrow> error + image"

subsection \<open>\<^verbatim>\<open>ImmichProvider\<close>\<close>

record ImmichProvider =
  base_url :: string
  key :: string
  orientation_of :: "string option"

text \<open>
  \<^verbatim>\<open>get_album_id\<close>: the list comprehension keeps the albums of that name; \<^verbatim>\<open>[0]\<close>
  on an empty list raises \<open>IndexError\<close>. The test \<^verbatim>\<open>album is None\<close> that follows can
  never hold for an element of the list, which is a record here.
\<close>

definition get_album_id ::
  "service \<Rightarrow> ImmichProvider \<Rightarrow> string \<Rightarrow> effect list \<times> (error + string)" where
  "get_album_id svc self album =
     (let req = GET (base_url self @ ''/api/albums'') (key self) in
      case list_albums svc req of
        Inl e \<Rightarrow> ([Http req], Inl e)
      | Inr albums \<Rightarrow>
          (case filter (\<lambda>a. albumName a = album) albums of
             [] \<Rightarrow> ([Http req], Inl IndexError)
           | a # _ \<Rightarrow> ([Http req], Inr (id_of_album a))))"

text \<open>
  \<^verbatim>\<open>get_aligned_images\<close>. Reading the two sizes of an asset raises \<open>KeyError\<close> on a
  missing key and \<open>TypeError\<close> when \<^verbatim>\<open>exifInfo\<close> is \<^verbatim>\<open>null\<close>. Comparing with
  \<^verbatim>\<open>null\<close> raises \<open>TypeError\<close>, but only where \<^verbatim>\<open>and\<close>/\<^verbatim>\<open>or\<close> reach the
  comparison.
\<close>

definition exif_sizes :: "asset \<Rightarrow> error + (int option \<times> int option)" where
  "exif_sizes a =
     (case exifInfo a of
        Absent \<Rightarrow> Inl KeyError
      | Null \<Rightarrow> Inl TypeError
      | Val e \<Rightarrow>
          (case exifImageWidth e of
             Absent \<Rightarrow> Inl KeyError
           | w \<Rightarrow>
               (case exifImageHeight e of
                  Absent \<Rightarrow> Inl KeyError
                | h \<Rightarrow>
                    Inr (case w of Val x \<Rightarrow> Some x | _ \<Rightarrow> None,
                         case h of Val y \<Rightarrow> Some y | _ \<Rightarrow> None))))"

definition py_gt :: "int option \<Rightarrow> int option \<Rightarrow> error + bool" where
  "py_gt a b = (case (a, b) of (Some x, Some y) \<Rightarrow> Inr (x > y) | _ \<Rightarrow> Inl TypeError)"

definition py_lt :: "int option \<Rightarrow> int option \<Rightarrow> error + bool" where
  "py_lt a b = (case (a, b) of (Some x, Some y) \<Rightarrow> Inr (x < y) | _ \<Rightarrow> Inl TypeError)"

definition exif_aligned :: "string option \<Rightarrow> int option \<Rightarrow> int option \<Rightarrow> error + bool" where
  "exif_aligned orientation w h =
     (let second =
        (if orientation = Some ''vertical'' then py_lt w h else Inr False)
      in if orientation = Some ''horizontal'' then
           (case py_gt w h of
              Inl e \<Rightarrow> Inl e
            | Inr True \<Rightarrow> Inr True
            | Inr False \<Rightarrow> second)
         else second)"

fun aligned_loop :: "string option \<Rightarrow> asset list \<Rightarrow> asset list \<Rightarrow> error + asset list" where
  "aligned_loop orientation items_acc [] = Inr items_acc"
| "aligned_loop orientation items_acc (a # rest) =
     (case exif_sizes a of
        Inl e \<Rightarrow> Inl e
      | Inr (w, h) \<Rightarrow>
          (case exif_aligned orientation w h of
             Inl e \<Rightarrow> Inl e
           | Inr keep \<Rightarrow>
               aligned_loop orientation (if keep then items_acc @ [a] else items_acc) rest))"

definition get_aligned_images :: "asset list \<Rightarrow> string option \<Rightarrow> error + asset list" where
  "get_aligned_images asset_list orientation = aligned_loop orientation [] asset_list"

text \<open>
  The pagination loop of \<^verbatim>\<open>get_asset_ids\<close>. The loop tests \<^verbatim>\<open>page_items\<close> only for
  emptiness, and the variable starts as the non-empty list \<^verbatim>\<open>[1]\<close>; the model carries
  the value of that test (\<open>again\<close>, \<open>True\<close> at the start). Nothing bounds the loop: a
  service that never sends an empty page keeps it running, which is the value \<open>None\<close>.
\<close>

definition page_request :: "ImmichProvider \<Rightarrow> string \<Rightarrow> nat \<Rightarrow> request" where
  "page_request self album_id page =
     POST (base_url self @ ''/api/search/metadata'') (key self)
       \<lparr>albumIds = [album_id], size_body = 1000, page_body = page, withExif = True\<rparr>"

definition page_items_of :: "search_response \<Rightarrow> asset list" where
  "page_items_of assets_data =
     (case assets assets_data of
        None \<Rightarrow> []
      | Some a \<Rightarrow> (case items a of None \<Rightarrow> [] | Some xs \<Rightarrow> xs))"

partial_function (option) fetch_pages ::
  "service \<Rightarrow> ImmichProvider \<Rightarrow> string \<Rightarrow> effect list \<Rightarrow> asset list \<Rightarrow> bool \<Rightarrow> nat
   \<Rightarrow> (effect list \<times> (error + asset list)) option" where
  "fetch_pages svc self album_id eff all_items again page =
     (if again then
        (case search_metadata svc (page_request self album_id page) of
           Inl e \<Rightarrow> Some (eff @ [Http (page_request self album_id page)], Inl e)
         | Inr assets_data \<Rightarrow>
             fetch_pages svc self album_id
               (eff @ [Http (page_request self album_id page)])
               (all_items @ page_items_of assets_data)
               (page_items_of assets_data \<noteq> [])
               (page + 1))
      else Some (eff, Inr all_items))"

definition get_asset_ids ::
  "service \<Rightarrow> ImmichProvider \<Rightarrow> string \<Rightarrow> string option
   \<Rightarrow> (effect list \<times> (error + string list)) option" where
  "get_asset_ids svc self album_id orientation =
     (case fetch_pages svc self album_id [] [] True 1 of
        None \<Rightarrow> None
      | Some (eff, Inl e) \<Rightarrow> Some (eff, Inl e)
      | Some (eff, Inr all_items) \<Rightarrow>
          Some (eff,
            case get_aligned_images all_items orientation of
              Inl e \<Rightarrow> Inl e
            | Inr aligned \<Rightarrow> Inr (map id_of_asset aligned)))"

text \<open>
  \<^verbatim>\<open>random.choice\<close>: \<open>IndexError\<close> on an empty sequence, otherwise the element at
  an index below the length. The generator is the sequence \<open>rng\<close> of raw draws, and
  \<open>k\<close> counts the draws made so far.
\<close>

definition choice :: "(nat \<Rightarrow> nat) \<Rightarrow> nat \<Rightarrow> 'a list \<Rightarrow> error + 'a" where
  "choice rng k xs = (if xs = [] then Inl IndexError else Inr (xs ! (rng k mod length xs)))"

definition asset_request :: "ImmichProvider \<Rightarrow> string \<Rightarrow> request" where
  "asset_request self asset_id =
     GET (base_url self @ ''/api/assets/'' @ asset_id @ ''/original'') (key self)"

definition pixel_aligned :: "string option \<Rightarrow> image \<Rightarrow> bool" where
  "pixel_aligned orientation img =
     ((orientation = Some ''horizontal'' \<and> width img > height img) \<or>
      (orientation = Some ''vertical'' \<and> height img > width img))"

text \<open>
  The download loop of \<^verbatim>\<open>get_image\<close>. Its state is the list \<^verbatim>\<open>asset_ids\<close>, the
  number of draws and the effects so far; \<open>seen\<close> records the candidate list at the
  head of every iteration (it is not a variable of the code). \<^verbatim>\<open>list.remove\<close> takes out
  the first occurrence.
\<close>

function download_loop ::
  "service \<Rightarrow> ImmichProvider \<Rightarrow> (nat \<Rightarrow> nat) \<Rightarrow> string option \<Rightarrow> string list list
   \<Rightarrow> effect list \<Rightarrow> nat \<Rightarrow> string list
   \<Rightarrow> string list list \<times> effect list \<times> (error + image)" where
  "download_loop svc self rng orientation seen eff k asset_ids =
     (case choice rng k asset_ids of
        Inl e \<Rightarrow> (seen @ [asset_ids], eff, Inl e)
      | Inr asset_id \<Rightarrow>
          (case download_original svc (asset_request self asset_id) of
             Inl e \<Rightarrow>
               (seen @ [asset_ids], eff @ [Http (asset_request self asset_id)], Inl e)
           | Inr img \<Rightarrow>
               if length asset_ids > 1 then
                 if pixel_aligned orientation img then
                   (seen @ [asset_ids], eff @ [Http (asset_request self asset_id)], Inr img)
                 else
                   download_loop svc self rng orientation (seen @ [asset_ids])
                     (eff @ [Http (asset_request self asset_id)]) (k + 1)
                     (remove1 asset_id asset_ids)
               else
                 (seen @ [asset_ids], eff @ [Http (asset_request self asset_id)], Inr img)))"
  by pat_completeness auto
termination
proof (relation "measure (\<lambda>(svc, self, rng, orientation, seen, eff, k, asset_ids). length asset_ids)")
  show "wf (measure (\<lambda>(svc, self, rng, orientation, seen, eff, k, asset_ids). length asset_ids))"
    by simp
next
  fix svc :: service and self :: ImmichProvider and rng :: "nat \<Rightarrow> nat"
    and orientation :: "string option" and seen :: "string list list"
    and eff :: "effect list" and k :: nat and asset_ids :: "string list"
    and asset_id :: string and img :: image
  assume c: "choice rng k asset_ids = Inr asset_id"
  then have ne: "asset_ids \<noteq> []"
    by (auto simp: choice_def split: if_splits)
  with c have "asset_id \<in> set asset_ids"
    by (auto simp: choice_def)
  then have "length (remove1 asset_id asset_ids) < length asset_ids"
    using ne by (simp add: length_remove1)
  then show "((svc, self, rng, orientation, seen @ [asset_ids],
        eff @ [Http (asset_request self asset_id)], k + 1, remove1 asset_id asset_ids),
       (svc, self, rng, orientation, seen, eff, k, asset_ids))
      \<in> measure (\<lambda>(svc, self, rng, orientation, seen, eff, k, asset_ids). length asset_ids)"
    by simp
qed

text \<open>
  \<^verbatim>\<open>get_image\<close>: an exception of the two lookups is caught and the method returns
  \<^verbatim>\<open>None\<close> (\<open>Inr None\<close>); the download loop is outside the \<^verbatim>\<open>try\<close>, so its
  exceptions leave the method.
\<close>

definition get_image ::
  "service \<Rightarrow> ImmichProvider \<Rightarrow> (nat \<Rightarrow> nat) \<Rightarrow> string \<Rightarrow> string option
   \<Rightarrow> (effect list \<times> (error + image option)) option" where
  "get_image svc self rng album orientation =
     (case get_album_id svc self album of
        (eff1, Inl e) \<Rightarrow> Some (eff1, Inr None)
      | (eff1, Inr album_id) \<Rightarrow>
          (case get_asset_ids svc self album_id orientation of
             None \<Rightarrow> None
           | Some (eff2, Inl e) \<Rightarrow> Some (eff1 @ eff2, Inr None)
           | Some (eff2, Inr asset_ids) \<Rightarrow>
               (case download_loop svc self rng orientation [] (eff1 @ eff2) 0 asset_ids of
                  (seen, eff3, Inl e) \<Rightarrow> Some (eff3, Inl e)
                | (seen, eff3, Inr img) \<Rightarrow> Some (eff3, Inr (Some img)))))"

subsection \<open>\<^verbatim>\<open>ImageAlbum\<close>\<close>

text \<open>
  The host's device configuration and the imaging functions are not part of this module;
  they are parameters. \<^verbatim>\<open>get_config\<close> and \<^verbatim>\<open>load_env_key\<close> give \<open>None\<close> for what
  is not a string. The argument of \<^verbatim>\<open>ImageColor.getcolor\<close> is the setting's string, or
  the tuple \<^verbatim>\<open>(255, 255, 255)\<close> when the setting is missing or empty.
\<close>

record device_config =
  get_config :: "string \<Rightarrow> string option"
  load_env_key :: "string \<Rightarrow> string option"
  get_resolution :: "nat \<times> nat"

datatype color_arg = ColorString string | ColorTuple nat nat nat

record imaging =
  pad_image_blur :: "image \<Rightarrow> nat \<times> nat \<Rightarrow> error + image"
  ImageColor_getcolor :: "color_arg \<Rightarrow> string \<Rightarrow> error + nat \<times> nat \<times> nat"
  ImageOps_pad :: "image \<Rightarrow> nat \<times> nat \<Rightarrow> nat \<times> nat \<times> nat \<Rightarrow> error + image"

definition truthy :: "string option \<Rightarrow> bool" where
  "truthy v = (case v of None \<Rightarrow> False | Some s \<Rightarrow> s \<noteq> [])"

definition failed_to_load :: error where
  "failed_to_load = RuntimeError ''Failed to load image, please check logs.''"

text \<open>The \<^verbatim>\<open>case "Immich"\<close> branch of the \<^verbatim>\<open>match\<close>: the value of \<^verbatim>\<open>img\<close> after it,
  or the exception.\<close>

definition immich_case ::
  "service \<Rightarrow> (nat \<Rightarrow> nat) \<Rightarrow> (string \<rightharpoonup> string) \<Rightarrow> device_config \<Rightarrow> string option
   \<Rightarrow> (effect list \<times> (error + image option)) option" where
  "immich_case svc rng settings dc orientation =
     (case load_env_key dc ''IMMICH_KEY'' of
        None \<Rightarrow> Some ([], Inl (RuntimeError ''Immich API Key not configured.''))
      | Some api_key \<Rightarrow>
          if api_key = [] then Some ([], Inl (RuntimeError ''Immich API Key not configured.''))
          else
            (case settings ''url'' of
               None \<Rightarrow> Some ([], Inl (RuntimeError ''URL is required.''))
             | Some url \<Rightarrow>
                 if url = [] then Some ([], Inl (RuntimeError ''URL is required.''))
                 else
                   (case settings ''album'' of
                      None \<Rightarrow> Some ([], Inl (RuntimeError ''Album is required.''))
                    | Some album \<Rightarrow>
                        if album = [] then Some ([], Inl (RuntimeError ''Album is required.''))
                        else
                          (case get_image svc
                                  \<lparr>base_url = url, key = api_key, orientation_of = orientation\<rparr>
                                  rng album orientation of
                             None \<Rightarrow> None
                           | Some (eff, Inl e) \<Rightarrow> Some (eff, Inl e)
                           | Some (eff, Inr None) \<Rightarrow> Some (eff, Inl failed_to_load)
                           | Some (eff, Inr (Some img)) \<Rightarrow> Some (eff, Inr (Some img))))))"

definition post_process ::
  "imaging \<Rightarrow> (string \<rightharpoonup> string) \<Rightarrow> device_config \<Rightarrow> string option \<Rightarrow> effect list \<Rightarrow> image
   \<Rightarrow> effect list \<times> (error + image)" where
  "post_process lib settings dc orientation eff img =
     (if settings ''padImage'' = Some ''true'' then
        (let dimensions = get_resolution dc;
             dimensions = (if orientation = Some ''vertical'' then prod.swap dimensions
                           else dimensions)
         in if settings ''backgroundOption'' = Some ''blur'' then
              (eff, pad_image_blur lib img dimensions)
            else
              (case ImageColor_getcolor lib
                      (if truthy (settings ''backgroundColor'')
                       then (case settings ''backgroundColor'' of
                               Some c \<Rightarrow> ColorString c
                             | None \<Rightarrow> ColorTuple 255 255 255)
                       else ColorTuple 255 255 255)
                      ''RGB'' of
                 Inl e \<Rightarrow> (eff, Inl e)
               | Inr background_color \<Rightarrow> (eff, ImageOps_pad lib img dimensions background_color)))
      else (eff @ [System ''sudo shutdown now''], Inr img))"

definition generate_image ::
  "service \<Rightarrow> (nat \<Rightarrow> nat) \<Rightarrow> imaging \<Rightarrow> (string \<rightharpoonup> string) \<Rightarrow> device_config
   \<Rightarrow> (effect list \<times> (error + image)) option" where
  "generate_image svc rng lib settings dc =
     (let orientation = get_config dc ''orientation'' in
      case (if settings ''albumProvider'' = Some ''Immich''
            then immich_case svc rng settings dc orientation
            else Some ([], Inr None)) of
        None \<Rightarrow> None
      | Some (eff, Inl e) \<Rightarrow> Some (eff, Inl e)
      | Some (eff, Inr None) \<Rightarrow> Some (eff, Inl failed_to_load)
      | Some (eff, Inr (Some img)) \<Rightarrow> Some (post_process lib settings dc orientation eff img))"

text \<open>
  Modelled from the documentation of Pillow, which is not part of this repository:
  \<^verbatim>\<open>ImageColor.getcolor(color, mode)\<close> takes a colour string. It lower-cases the
  argument before it looks the specifier up, so an argument that is not a string, such as
  a tuple, ends in \<open>AttributeError\<close>; a string that is no colour specifier ends in
  \<open>ValueError\<close>. \<open>colormap\<close> is the library's table of specifiers.
\<close>

definition pillow_getcolor ::
  "(string \<rightharpoonup> nat \<times> nat \<times> nat) \<Rightarrow> color_arg \<Rightarrow> string \<Rightarrow> error + nat \<times> nat \<times> nat" where
  "pillow_getcolor colormap c mode =
     (case c of
        ColorTuple r g b \<Rightarrow> Inl AttributeError
      | ColorString s \<Rightarrow>
          (case colormap s of None \<Rightarrow> Inl ValueError | Some rgb \<Rightarrow> Inr rgb))"

subsection \<open>Vocabulary of the statements\<close>

text \<open>
  The EXIF size of an asset when both numbers are there, and the test of the orientation
  filter on it, both read off \<open>exif_sizes\<close>.
\<close>

definition exif_wh :: "asset \<Rightarrow> (int \<times> int) option" where
  "exif_wh a = (case exif_sizes a of Inr (Some w, Some h) \<Rightarrow> Some (w, h) | _ \<Rightarrow> None)"

definition exif_matches :: "string option \<Rightarrow> asset \<Rightarrow> bool" where
  "exif_matches orientation a =
     (case exif_wh a of
        None \<Rightarrow> False
      | Some (w, h) \<Rightarrow>
          (orientation = Some ''horizontal'' \<and> w > h) \<or>
          (orientation = Some ''vertical'' \<and> w < h))"

subsection \<open>A small service to run the code on\<close>

text \<open>
  Three albums: \<open>Family\<close> holds one square picture, \<open>Trips\<close> (two albums of that
  name) holds two pages of pictures. The EXIF data of \<open>w2\<close> says landscape while its
  pixels are portrait, and the only portrait asset \<open>t1\<close> decodes as landscape. The
  imaging functions are never reached in the runs below.
\<close>

definition demo_asset :: "string \<Rightarrow> int \<Rightarrow> int \<Rightarrow> asset" where
  "demo_asset i w h =
     \<lparr>id_of_asset = i, exifInfo = Val \<lparr>exifImageWidth = Val w, exifImageHeight = Val h\<rparr>\<rparr>"

definition demo_page :: "asset list \<Rightarrow> search_response" where
  "demo_page xs = \<lparr>assets = Some \<lparr>items = Some xs\<rparr>\<rparr>"

definition demo_pages :: "string \<Rightarrow> nat \<Rightarrow> asset list" where
  "demo_pages album_id p =
     (if album_id = ''a2'' then
        (if p = 1 then [demo_asset ''w2'' 1920 1080, demo_asset ''t1'' 3000 4000]
         else if p = 2 then [demo_asset ''s1'' 2000 2000, demo_asset ''w1'' 4000 3000]
         else [])
      else if album_id = ''a1'' \<and> p = 1 then [demo_asset ''s2'' 1000 1000]
      else [])"

definition demo_service :: service where
  "demo_service =
     \<lparr>list_albums = (\<lambda>req. Inr [\<lparr>albumName = ''Family'', id_of_album = ''a1''\<rparr>,
                                \<lparr>albumName = ''Trips'', id_of_album = ''a2''\<rparr>,
                                \<lparr>albumName = ''Trips'', id_of_album = ''a3''\<rparr>]),
      search_metadata = (\<lambda>req. case req of
          GET url k \<Rightarrow> Inl HTTPError
        | POST url k b \<Rightarrow>
            (case albumIds b of
               [album_id] \<Rightarrow> Inr (demo_page (demo_pages album_id (page_body b)))
             | _ \<Rightarrow> Inr \<lparr>assets = None\<rparr>)),
      download_original = (\<lambda>req. case req of
          GET url k \<Rightarrow>
            if url = ''http://nas/api/assets/w1/original''
            then Inr \<lparr>width = 4000, height = 3000, content = ''w1''\<rparr>
            else if url = ''http://nas/api/assets/w2/original''
            then Inr \<lparr>width = 1080, height = 1920, content = ''w2''\<rparr>
            else if url = ''http://nas/api/assets/t1/original''
            then Inr \<lparr>width = 4000, height = 3000, content = ''t1''\<rparr>
            else Inl HTTPError
        | POST url k b \<Rightarrow> Inl HTTPError)\<rparr>"

definition demo_provider :: "string option \<Rightarrow> ImmichProvider" where
  "demo_provider orientation =
     \<lparr>base_url = ''http://nas'', key = ''secret'', orientation_of = orientation\<rparr>"

definition demo_settings :: "string \<Rightarrow> string \<rightharpoonup> string" where
  "demo_settings album =
     [''albumProvider'' \<mapsto> ''Immich'', ''url'' \<mapsto> ''http://nas'', ''album'' \<mapsto> album]"

definition demo_device :: "string \<Rightarrow> device_config" where
  "demo_device orientation =
     \<lparr>get_config = [''orientation'' \<mapsto> orientation],
      load_env_key = [''IMMICH_KEY'' \<mapsto> ''secret''],
      get_resolution = (800, 480)\<rparr>"

definition demo_imaging :: imaging where
  "demo_imaging =
     \<lparr>pad_image_blur = (\<lambda>img d. Inl (OtherError ''not used'')),
      ImageColor_getcolor = (\<lambda>c m. Inl (OtherError ''not used'')),
      ImageOps_pad = (\<lambda>img d c. Inl (OtherError ''not used''))\<rparr>"

definition demo_image :: "string \<Rightarrow> int \<Rightarrow> int \<Rightarrow> image" where
  "demo_image i w h = \<lparr>width = w, height = h, content = i\<rparr>"

text \<open>
  A second service for the padding path: one album \<open>Portraits\<close> with one picture of
  100 by 200 pixels, a device of 300 by 300 in vertical orientation, and settings that ask
  for padding and name no background colour. In \<open>pillow_imaging\<close> the colour lookup is
  the one modelled above; the two padding functions only give the image the requested
  size.
\<close>

definition demo_rng :: "nat \<Rightarrow> nat" where
  "demo_rng k = 0"

definition portrait_service :: service where
  "portrait_service =
     \<lparr>list_albums = (\<lambda>req. Inr [\<lparr>albumName = ''Portraits'', id_of_album = ''a5''\<rparr>]),
      search_metadata = (\<lambda>req. case req of
          GET url k \<Rightarrow> Inl HTTPError
        | POST url k b \<Rightarrow>
            if page_body b = 1 then Inr (demo_page [demo_asset ''p1'' 100 200])
            else Inr (demo_page [])),
      download_original = (\<lambda>req. Inr \<lparr>width = 100, height = 200, content = ''p1''\<rparr>)\<rparr>"

definition pillow_imaging :: imaging where
  "pillow_imaging =
     \<lparr>pad_image_blur = (\<lambda>img d. Inr (img\<lparr>width := int (fst d), height := int (snd d)\<rparr>)),
      ImageColor_getcolor =
        pillow_getcolor [''white'' \<mapsto> (255, 255, 255), ''black'' \<mapsto> (0, 0, 0)],
      ImageOps_pad = (\<lambda>img d c. Inr (img\<lparr>width := int (fst d), height := int (snd d)\<rparr>))\<rparr>"

definition square_device :: device_config where
  "square_device =
     \<lparr>get_config = [''orientation'' \<mapsto> ''vertical''],
      load_env_key = [''IMMICH_KEY'' \<mapsto> ''secret''],
      get_resolution = (300, 300)\<rparr>"

definition pad_settings :: "string \<rightharpoonup> string" where
  "pad_settings =
     [''albumProvider'' \<mapsto> ''Immich'', ''url'' \<mapsto> ''http://nas'', ''album'' \<mapsto> ''Portraits'',
      ''padImage'' \<mapsto> ''true'']"

section \<open>Properties\<close>

declare download_loop.simps [simp del]

subsection \<open>The orientation filter\<close>

lemma exif_wh_sizes: "exif_wh a = Some (w, h) \<Longrightarrow> exif_sizes a = Inr (Some w, Some h)"
  by (auto simp: exif_wh_def split: sum.splits option.splits prod.splits)

lemma exif_aligned_horizontal [simp]:
  "exif_aligned (Some ''horizontal'') (Some w) (Some h) = Inr (w > h)"
  by (simp add: exif_aligned_def py_gt_def py_lt_def split: bool.splits)

lemma exif_aligned_vertical [simp]:
  "exif_aligned (Some ''vertical'') (Some w) (Some h) = Inr (w < h)"
  by (simp add: exif_aligned_def py_gt_def py_lt_def split: bool.splits)

lemma aligned_loop_horizontal:
  "\<forall>a\<in>set asset_list. exif_wh a \<noteq> None \<Longrightarrow>
   aligned_loop (Some ''horizontal'') acc asset_list =
     Inr (acc @ filter (\<lambda>a. \<exists>w h. exif_wh a = Some (w, h) \<and> w > h) asset_list)"
proof (induction asset_list arbitrary: acc)
  case Nil
  then show ?case by simp
next
  case (Cons a rest)
  from Cons.prems obtain w h where wh: "exif_wh a = Some (w, h)" by auto
  have rest: "\<forall>a\<in>set rest. exif_wh a \<noteq> None" using Cons.prems by simp
  show ?case
    using wh exif_wh_sizes [OF wh] Cons.IH [OF rest] by simp
qed

lemma aligned_loop_vertical:
  "\<forall>a\<in>set asset_list. exif_wh a \<noteq> None \<Longrightarrow>
   aligned_loop (Some ''vertical'') acc asset_list =
     Inr (acc @ filter (\<lambda>a. \<exists>w h. exif_wh a = Some (w, h) \<and> w < h) asset_list)"
proof (induction asset_list arbitrary: acc)
  case Nil
  then show ?case by simp
next
  case (Cons a rest)
  from Cons.prems obtain w h where wh: "exif_wh a = Some (w, h)" by auto
  have rest: "\<forall>a\<in>set rest. exif_wh a \<noteq> None" using Cons.prems by simp
  show ?case
    using wh exif_wh_sizes [OF wh] Cons.IH [OF rest] by simp
qed

lemma exif_aligned_True:
  "exif_sizes a = Inr (w, h) \<Longrightarrow> exif_aligned orientation w h = Inr True \<Longrightarrow>
   exif_matches orientation a"
  by (auto simp: exif_matches_def exif_wh_def exif_aligned_def py_gt_def py_lt_def Let_def
      split: if_splits sum.splits option.splits bool.splits)

lemma aligned_loop_sound:
  "aligned_loop orientation acc asset_list = Inr kept \<Longrightarrow>
   \<exists>new. kept = acc @ new \<and> (\<forall>a\<in>set new. a \<in> set asset_list \<and> exif_matches orientation a)"
proof (induction asset_list arbitrary: acc)
  case Nil
  then show ?case by simp
next
  case (Cons a rest)
  from Cons.prems obtain w h keep where
    s: "exif_sizes a = Inr (w, h)" and al: "exif_aligned orientation w h = Inr keep"
    and rec: "aligned_loop orientation (if keep then acc @ [a] else acc) rest = Inr kept"
    by (auto split: sum.splits prod.splits)
  from Cons.IH [OF rec] obtain new where
    new: "kept = (if keep then acc @ [a] else acc) @ new"
      "\<forall>a\<in>set new. a \<in> set rest \<and> exif_matches orientation a"
    by blast
  show ?case
  proof (cases keep)
    case True
    then have "exif_matches orientation a" using exif_aligned_True [OF s] al by simp
    then show ?thesis using new True by (intro exI [of _ "a # new"]) auto
  next
    case False
    then show ?thesis using new by (intro exI [of _ new]) auto
  qed
qed

subsection \<open>Pagination\<close>

lemma fetch_pages_run:
  assumes "\<forall>p. page \<le> p \<and> p < page + k \<longrightarrow>
             (\<exists>r. search_metadata svc (page_request self album_id p) = Inr r \<and>
                  page_items_of r = pages p \<and> pages p \<noteq> [])"
    and "\<exists>r. search_metadata svc (page_request self album_id (page + k)) = Inr r \<and>
             page_items_of r = []"
  shows "fetch_pages svc self album_id eff all_items True page =
           Some (eff @ map (\<lambda>p. Http (page_request self album_id p)) [page..<page + k + 1],
                 Inr (all_items @ concat (map pages [page..<page + k])))"
  using assms
proof (induction k arbitrary: page eff all_items)
  case 0
  then obtain r where r: "search_metadata svc (page_request self album_id page) = Inr r"
      "page_items_of r = []" by auto
  show ?case
    apply (subst fetch_pages.simps)
    apply (simp add: r)
    apply (subst fetch_pages.simps)
    apply simp
    done
next
  case (Suc k)
  from Suc.prems(1) obtain r where
    r: "search_metadata svc (page_request self album_id page) = Inr r"
      "page_items_of r = pages page" "pages page \<noteq> []"
    by (metis le_refl less_add_Suc1 add_Suc_right)
  have a: "\<forall>p. page + 1 \<le> p \<and> p < page + 1 + k \<longrightarrow>
             (\<exists>r. search_metadata svc (page_request self album_id p) = Inr r \<and>
                  page_items_of r = pages p \<and> pages p \<noteq> [])"
    using Suc.prems(1) by auto
  have b: "\<exists>r. search_metadata svc (page_request self album_id (page + 1 + k)) = Inr r \<and>
             page_items_of r = []"
    using Suc.prems(2) by simp
  have up: "[page..<page + Suc k + 1] = page # [page + 1..<page + 1 + k + 1]"
           "[page..<page + Suc k] = page # [page + 1..<page + 1 + k]"
    by (simp_all add: upt_conv_Cons)
  have step: "fetch_pages svc self album_id eff all_items True page =
      fetch_pages svc self album_id (eff @ [Http (page_request self album_id page)])
        (all_items @ pages page) True (page + 1)"
    by (subst fetch_pages.simps) (simp add: r)
  show ?case
    unfolding step Suc.IH [OF a b] up by simp
qed

lemma get_asset_ids_sound:
  assumes "get_asset_ids svc self album_id orientation = Some (eff, Inr asset_ids)"
  shows "\<exists>all_items. fetch_pages svc self album_id [] [] True 1 = Some (eff, Inr all_items) \<and>
           (\<forall>i\<in>set asset_ids. \<exists>a\<in>set all_items. id_of_asset a = i \<and> exif_matches orientation a)"
proof -
  from assms obtain all_items kept where
    f: "fetch_pages svc self album_id [] [] True 1 = Some (eff, Inr all_items)"
    and g: "get_aligned_images all_items orientation = Inr kept"
    and i: "asset_ids = map id_of_asset kept"
    by (auto simp: get_asset_ids_def split: option.splits sum.splits prod.splits)
  from aligned_loop_sound [of orientation "[]" all_items kept] g
  have "\<forall>a\<in>set kept. a \<in> set all_items \<and> exif_matches orientation a"
    by (simp add: get_aligned_images_def)
  then show ?thesis using f i by auto
qed

subsection \<open>The download loop\<close>

lemma choice_mem: "choice rng k xs = Inr x \<Longrightarrow> x \<in> set xs"
  by (auto simp: choice_def split: if_splits)

lemma choice_nonempty: "xs \<noteq> [] \<Longrightarrow> \<exists>x. choice rng k xs = Inr x"
  by (simp add: choice_def)

lemma download_loop_retry:
  "choice rng k asset_ids = Inr asset_id \<Longrightarrow>
   download_original svc (asset_request self asset_id) = Inr img \<Longrightarrow>
   1 < length asset_ids \<Longrightarrow> \<not> pixel_aligned orientation img \<Longrightarrow>
   download_loop svc self rng orientation seen eff k asset_ids =
     download_loop svc self rng orientation (seen @ [asset_ids])
       (eff @ [Http (asset_request self asset_id)]) (k + 1) (remove1 asset_id asset_ids)"
  by (subst download_loop.simps) simp

lemma download_loop_accept:
  "choice rng k asset_ids = Inr asset_id \<Longrightarrow>
   download_original svc (asset_request self asset_id) = Inr img \<Longrightarrow>
   pixel_aligned orientation img \<or> length asset_ids \<le> 1 \<Longrightarrow>
   download_loop svc self rng orientation seen eff k asset_ids =
     (seen @ [asset_ids], eff @ [Http (asset_request self asset_id)], Inr img)"
  by (subst download_loop.simps) auto

lemma download_loop_http_error:
  "choice rng k asset_ids = Inr asset_id \<Longrightarrow>
   download_original svc (asset_request self asset_id) = Inl e \<Longrightarrow>
   download_loop svc self rng orientation seen eff k asset_ids =
     (seen @ [asset_ids], eff @ [Http (asset_request self asset_id)], Inl e)"
  by (subst download_loop.simps) simp

lemma download_loop_empty:
  "download_loop svc self rng orientation seen eff k [] = (seen @ [[]], eff, Inl IndexError)"
  by (subst download_loop.simps) (simp add: choice_def)

lemma count_list_remove1:
  "x \<in> set xs \<Longrightarrow>
   count_list (remove1 x xs) y = (if y = x then count_list xs y - 1 else count_list xs y)"
  by (induction xs) auto

lemma count_list_one_iff:
  "x \<in> set xs \<Longrightarrow> x \<notin> set (remove1 x xs) \<longleftrightarrow> count_list xs x = 1"
proof -
  assume m: "x \<in> set xs"
  then have pos: "count_list xs x \<noteq> 0" by (simp add: count_list_0_iff)
  have "x \<notin> set (remove1 x xs) \<longleftrightarrow> count_list (remove1 x xs) x = 0"
    using count_list_0_iff [of "remove1 x xs" x] by blast
  also have "\<dots> \<longleftrightarrow> count_list xs x - 1 = 0"
    using m by (simp add: count_list_remove1)
  also have "\<dots> \<longleftrightarrow> count_list xs x = 1"
    using pos by auto
  finally show ?thesis .
qed

lemma download_loop_run:
  "asset_ids \<noteq> [] \<Longrightarrow>
   \<exists>seen' ids r.
     download_loop svc self rng orientation seen eff k asset_ids =
       (seen @ seen', eff @ map (\<lambda>i. Http (asset_request self i)) ids, r) \<and>
     1 \<le> length ids \<and> length ids \<le> length asset_ids \<and> length seen' = length ids \<and>
     hd seen' = asset_ids \<and> set ids \<subseteq> set asset_ids \<and> (\<forall>c\<in>set seen'. c \<noteq> [] \<and> set c \<subseteq> set asset_ids) \<and>
     (\<forall>img. r = Inr img \<longrightarrow> pixel_aligned orientation img \<or> length (last seen') = 1)"
proof (induction svc self rng orientation seen eff k asset_ids rule: download_loop.induct)
  case (1 svc self rng orientation seen eff k asset_ids)
  from choice_nonempty [OF "1.prems"] obtain asset_id
    where c: "choice rng k asset_ids = Inr asset_id" by blast
  have mem: "asset_id \<in> set asset_ids" using c by (rule choice_mem)
  let ?req = "Http (asset_request self asset_id)"
  show ?case
  proof (cases "download_original svc (asset_request self asset_id)")
    case (Inl e)
    have "download_loop svc self rng orientation seen eff k asset_ids =
        (seen @ [asset_ids], eff @ map (\<lambda>i. Http (asset_request self i)) [asset_id], Inl e)"
      using download_loop_http_error [OF c Inl] by simp
    then show ?thesis
      using "1.prems" mem
      by (intro exI [of _ "[asset_ids]"] exI [of _ "[asset_id]"] exI [of _ "Inl e"])
         (simp add: Suc_le_eq)
  next
    case (Inr img)
    show ?thesis
    proof (cases "1 < length asset_ids \<and> \<not> pixel_aligned orientation img")
      case False
      then have acc: "pixel_aligned orientation img \<or> length asset_ids \<le> 1" by auto
      have one: "pixel_aligned orientation img \<or> length asset_ids = 1"
        using acc "1.prems" by (cases asset_ids) auto
      have "download_loop svc self rng orientation seen eff k asset_ids =
          (seen @ [asset_ids], eff @ map (\<lambda>i. Http (asset_request self i)) [asset_id], Inr img)"
        using download_loop_accept [OF c Inr acc] by simp
      then show ?thesis
        using "1.prems" mem one
        by (intro exI [of _ "[asset_ids]"] exI [of _ "[asset_id]"] exI [of _ "Inr img"])
           (simp add: Suc_le_eq)
    next
      case True
      then have len: "1 < length asset_ids" and na: "\<not> pixel_aligned orientation img"
        by auto
      have lr: "length (remove1 asset_id asset_ids) = length asset_ids - 1"
        using mem by (simp add: length_remove1)
      then have ne: "remove1 asset_id asset_ids \<noteq> []" using len by auto
      from "1.IH" [OF c Inr len na ne] obtain seen' ids r where
        ih: "download_loop svc self rng orientation (seen @ [asset_ids]) (eff @ [?req]) (k + 1)
               (remove1 asset_id asset_ids) =
             ((seen @ [asset_ids]) @ seen',
              (eff @ [?req]) @ map (\<lambda>i. Http (asset_request self i)) ids, r)"
          "1 \<le> length ids" "length ids \<le> length (remove1 asset_id asset_ids)"
          "length seen' = length ids" "set ids \<subseteq> set (remove1 asset_id asset_ids)"
          "\<forall>c\<in>set seen'. c \<noteq> [] \<and> set c \<subseteq> set (remove1 asset_id asset_ids)"
          "\<forall>img. r = Inr img \<longrightarrow> pixel_aligned orientation img \<or> length (last seen') = 1"
        by blast
      have sub: "set (remove1 asset_id asset_ids) \<subseteq> set asset_ids"
        by (rule set_remove1_subset)
      have sne: "seen' \<noteq> []" using ih(2,4) by auto
      have eq: "download_loop svc self rng orientation seen eff k asset_ids =
          (seen @ (asset_ids # seen'),
           eff @ map (\<lambda>i. Http (asset_request self i)) (asset_id # ids), r)"
        using download_loop_retry [OF c Inr len na] ih(1) by simp
      have c1: "length (asset_id # ids) \<le> length asset_ids"
        using ih(3) lr len by simp
      have c2: "set (asset_id # ids) \<subseteq> set asset_ids"
        using ih(5) sub mem by auto
      have c3: "\<forall>c\<in>set (asset_ids # seen'). c \<noteq> [] \<and> set c \<subseteq> set asset_ids"
        using ih(6) sub "1.prems" by auto
      have c4: "\<forall>img. r = Inr img \<longrightarrow>
          pixel_aligned orientation img \<or> length (last (asset_ids # seen')) = 1"
        using ih(7) sne by simp
      have c5: "length (asset_ids # seen') = length (asset_id # ids)"
        using ih(4) by simp
      have c6: "1 \<le> length (asset_id # ids)" by simp
      have c7: "hd (asset_ids # seen') = asset_ids" by simp
      show ?thesis
        using eq c1 c2 c3 c4 c5 c6 c7 by blast
    qed
  qed
qed

lemma download_loop_seen:
  assumes "download_loop svc self rng orientation [] eff k asset_ids = (seen, eff', r)"
  shows "seen \<noteq> [] \<and> hd seen = asset_ids \<and> (\<forall>c\<in>set seen. set c \<subseteq> set asset_ids) \<and>
         (\<forall>img. r = Inr img \<longrightarrow> pixel_aligned orientation img \<or> length (last seen) = 1)"
proof (cases "asset_ids = []")
  case True
  then show ?thesis
    using assms by (auto simp: download_loop_empty)
next
  case False
  from download_loop_run [OF False, of svc self rng orientation "[]" eff k]
  obtain seen' ids r' where
    d: "download_loop svc self rng orientation [] eff k asset_ids =
          ([] @ seen', eff @ map (\<lambda>i. Http (asset_request self i)) ids, r')"
    and l: "1 \<le> length ids" "length seen' = length ids" "hd seen' = asset_ids"
      "\<forall>c\<in>set seen'. c \<noteq> [] \<and> set c \<subseteq> set asset_ids"
      "\<forall>img. r' = Inr img \<longrightarrow> pixel_aligned orientation img \<or> length (last seen') = 1"
    by blast
  from d assms have e: "seen' = seen" "r' = r" by simp_all
  have ne: "seen \<noteq> []" using l(1,2) e by auto
  show ?thesis using ne l(3,4,5) e by blast
qed

subsection \<open>Runs on the small service\<close>

lemma demo_trips_pages:
  "fetch_pages demo_service (demo_provider orientation) ''a2'' [] [] True 1 =
     Some ([Http (page_request (demo_provider orientation) ''a2'' 1),
            Http (page_request (demo_provider orientation) ''a2'' 2),
            Http (page_request (demo_provider orientation) ''a2'' 3)],
           Inr [demo_asset ''w2'' 1920 1080, demo_asset ''t1'' 3000 4000,
                demo_asset ''s1'' 2000 2000, demo_asset ''w1'' 4000 3000])"
proof -
  have a: "\<forall>p. 1 \<le> p \<and> p < 1 + 2 \<longrightarrow>
      (\<exists>r. search_metadata demo_service (page_request (demo_provider orientation) ''a2'' p) = Inr r \<and>
           page_items_of r = demo_pages ''a2'' p \<and> demo_pages ''a2'' p \<noteq> [])"
  proof (intro allI impI)
    fix p :: nat assume "1 \<le> p \<and> p < 1 + 2"
    then have "p = 1 \<or> p = 2" by auto
    then show "\<exists>r. search_metadata demo_service (page_request (demo_provider orientation) ''a2'' p) = Inr r \<and>
           page_items_of r = demo_pages ''a2'' p \<and> demo_pages ''a2'' p \<noteq> []"
      by (auto simp: demo_service_def page_request_def page_items_of_def demo_page_def demo_pages_def)
  qed
  have b: "\<exists>r. search_metadata demo_service (page_request (demo_provider orientation) ''a2'' (1 + 2)) = Inr r \<and>
      page_items_of r = []"
    by (simp add: demo_service_def page_request_def page_items_of_def demo_page_def demo_pages_def)
  have u: "[1..<1 + 2 + 1] = [1, 2, 3::nat]" "[1..<1 + 2] = [1, 2::nat]"
    by (simp_all add: upt_conv_Cons)
  show ?thesis
    using fetch_pages_run [OF a b, of "[]" "[]"] unfolding u
    by (simp add: demo_pages_def)
qed

lemma demo_family_pages:
  "fetch_pages demo_service (demo_provider orientation) ''a1'' [] [] True 1 =
     Some ([Http (page_request (demo_provider orientation) ''a1'' 1),
            Http (page_request (demo_provider orientation) ''a1'' 2)],
           Inr [demo_asset ''s2'' 1000 1000])"
proof -
  have a: "\<forall>p. 1 \<le> p \<and> p < 1 + 1 \<longrightarrow>
      (\<exists>r. search_metadata demo_service (page_request (demo_provider orientation) ''a1'' p) = Inr r \<and>
           page_items_of r = demo_pages ''a1'' p \<and> demo_pages ''a1'' p \<noteq> [])"
  proof (intro allI impI)
    fix p :: nat assume "1 \<le> p \<and> p < 1 + 1"
    then have "p = 1" by auto
    then show "\<exists>r. search_metadata demo_service (page_request (demo_provider orientation) ''a1'' p) = Inr r \<and>
           page_items_of r = demo_pages ''a1'' p \<and> demo_pages ''a1'' p \<noteq> []"
      by (simp add: demo_service_def page_request_def page_items_of_def demo_page_def demo_pages_def)
  qed
  have b: "\<exists>r. search_metadata demo_service (page_request (demo_provider orientation) ''a1'' (1 + 1)) = Inr r \<and>
      page_items_of r = []"
    by (simp add: demo_service_def page_request_def page_items_of_def demo_page_def demo_pages_def)
  have u: "[1..<1 + 1 + 1] = [1, 2::nat]" "[1..<1 + 1] = [1::nat]"
    by (simp_all add: upt_conv_Cons)
  show ?thesis
    using fetch_pages_run [OF a b, of "[]" "[]"] unfolding u
    by (simp add: demo_pages_def)
qed

lemma demo_aligned_square:
  "orientation = Some ''horizontal'' \<or> orientation = Some ''vertical'' \<Longrightarrow>
   get_aligned_images [demo_asset ''s2'' 1000 1000] orientation = Inr []"
  by (auto simp: get_aligned_images_def exif_sizes_def demo_asset_def)

lemma demo_aligned_horizontal:
  "get_aligned_images [demo_asset ''w2'' 1920 1080, demo_asset ''t1'' 3000 4000,
       demo_asset ''s1'' 2000 2000, demo_asset ''w1'' 4000 3000] (Some ''horizontal'') =
     Inr [demo_asset ''w2'' 1920 1080, demo_asset ''w1'' 4000 3000]"
  by (simp add: get_aligned_images_def exif_sizes_def demo_asset_def)

lemma demo_trips_ids_horizontal:
  "get_asset_ids demo_service (demo_provider orientation) ''a2'' (Some ''horizontal'') =
     Some ([Http (page_request (demo_provider orientation) ''a2'' 1),
            Http (page_request (demo_provider orientation) ''a2'' 2),
            Http (page_request (demo_provider orientation) ''a2'' 3)], Inr [''w2'', ''w1''])"
  unfolding get_asset_ids_def demo_trips_pages
  by (simp add: demo_aligned_horizontal) (simp add: demo_asset_def)

lemma demo_family_ids:
  "orientation' = Some ''horizontal'' \<or> orientation' = Some ''vertical'' \<Longrightarrow>
   get_asset_ids demo_service (demo_provider orientation) ''a1'' orientation' =
     Some ([Http (page_request (demo_provider orientation) ''a1'' 1),
            Http (page_request (demo_provider orientation) ''a1'' 2)], Inr [])"
  unfolding get_asset_ids_def demo_family_pages
  by (simp add: demo_aligned_square)

lemma demo_download:
  "download_original demo_service (asset_request (demo_provider orientation) ''w1'') =
     Inr (demo_image ''w1'' 4000 3000)"
  "download_original demo_service (asset_request (demo_provider orientation) ''w2'') =
     Inr (demo_image ''w2'' 1080 1920)"
  "download_original demo_service (asset_request (demo_provider orientation) ''t1'') =
     Inr (demo_image ''t1'' 4000 3000)"
  by (simp_all add: demo_service_def asset_request_def demo_provider_def demo_image_def)

lemma demo_pixels:
  "pixel_aligned (Some ''horizontal'') (demo_image ''w1'' 4000 3000)"
  "\<not> pixel_aligned (Some ''horizontal'') (demo_image ''w2'' 1080 1920)"
  "\<not> pixel_aligned (Some ''vertical'') (demo_image ''t1'' 4000 3000)"
  by (simp_all add: pixel_aligned_def demo_image_def)

lemma demo_choice:
  "choice (\<lambda>k. 0) k (x # xs) = Inr x"
  by (simp add: choice_def)

lemma demo_rng_choice: "choice demo_rng k (x # xs) = Inr x"
  by (simp add: choice_def demo_rng_def)

lemma demo_loop_horizontal:
  "download_loop demo_service (demo_provider orientation) (\<lambda>k. 0) (Some ''horizontal'') [] eff 0
       [''w2'', ''w1''] =
     ([[''w2'', ''w1''], [''w1'']],
      eff @ [Http (asset_request (demo_provider orientation) ''w2''),
             Http (asset_request (demo_provider orientation) ''w1'')],
      Inr (demo_image ''w1'' 4000 3000))"
proof -
  have "download_loop demo_service (demo_provider orientation) (\<lambda>k. 0) (Some ''horizontal'') [] eff 0
       [''w2'', ''w1''] =
     download_loop demo_service (demo_provider orientation) (\<lambda>k. 0) (Some ''horizontal'')
       ([] @ [[''w2'', ''w1'']]) (eff @ [Http (asset_request (demo_provider orientation) ''w2'')])
       (0 + 1) (remove1 ''w2'' [''w2'', ''w1''])"
    by (rule download_loop_retry [OF demo_choice demo_download(2)]) (simp_all add: demo_pixels)
  also have "\<dots> = ([[''w2'', ''w1''], [''w1'']],
      eff @ [Http (asset_request (demo_provider orientation) ''w2''),
             Http (asset_request (demo_provider orientation) ''w1'')],
      Inr (demo_image ''w1'' 4000 3000))"
    using download_loop_accept [where rng = "\<lambda>k. 0" and k = 1 and asset_ids = "[''w1'']"
        and asset_id = "''w1''" and svc = demo_service and self = "demo_provider orientation"
        and img = "demo_image ''w1'' 4000 3000" and orientation = "Some ''horizontal''"
        and seen = "[[''w2'', ''w1'']]"
        and eff = "eff @ [Http (asset_request (demo_provider orientation) ''w2'')]"]
    by (simp add: demo_choice demo_download)
  finally show ?thesis .
qed

lemma demo_album_id:
  "get_album_id demo_service (demo_provider orientation) ''Trips'' =
     ([Http (GET ''http://nas/api/albums'' ''secret'')], Inr ''a2'')"
  "get_album_id demo_service (demo_provider orientation) ''Family'' =
     ([Http (GET ''http://nas/api/albums'' ''secret'')], Inr ''a1'')"
  by (simp_all add: get_album_id_def demo_service_def demo_provider_def)

lemma demo_get_image:
  "get_image demo_service (demo_provider (Some ''horizontal'')) (\<lambda>k. 0) ''Trips''
       (Some ''horizontal'') =
     Some ([Http (GET ''http://nas/api/albums'' ''secret''),
            Http (page_request (demo_provider (Some ''horizontal'')) ''a2'' 1),
            Http (page_request (demo_provider (Some ''horizontal'')) ''a2'' 2),
            Http (page_request (demo_provider (Some ''horizontal'')) ''a2'' 3),
            Http (asset_request (demo_provider (Some ''horizontal'')) ''w2''),
            Http (asset_request (demo_provider (Some ''horizontal'')) ''w1'')],
           Inr (Some (demo_image ''w1'' 4000 3000)))"
  unfolding get_image_def demo_album_id
  by (simp add: demo_trips_ids_horizontal demo_loop_horizontal)

lemma generate_image_empty_candidates:
  assumes "settings ''albumProvider'' = Some ''Immich''"
    and "load_env_key dc ''IMMICH_KEY'' = Some api_key" and "api_key \<noteq> []"
    and "settings ''url'' = Some url" and "url \<noteq> []"
    and "settings ''album'' = Some album" and "album \<noteq> []"
    and "get_image svc \<lparr>base_url = url, key = api_key, orientation_of = get_config dc ''orientation''\<rparr>
           rng album (get_config dc ''orientation'') = Some (eff, Inl e)"
  shows "generate_image svc rng lib settings dc = Some (eff, Inl e)"
  using assms by (simp add: generate_image_def immich_case_def)

lemma portrait_pages:
  "fetch_pages portrait_service self ''a5'' [] [] True 1 =
     Some ([Http (page_request self ''a5'' 1), Http (page_request self ''a5'' 2)],
           Inr [demo_asset ''p1'' 100 200])"
proof -
  have a: "\<forall>p. 1 \<le> p \<and> p < 1 + 1 \<longrightarrow>
      (\<exists>r. search_metadata portrait_service (page_request self ''a5'' p) = Inr r \<and>
           page_items_of r = (\<lambda>p. [demo_asset ''p1'' 100 200]) p \<and>
           (\<lambda>p. [demo_asset ''p1'' 100 200]) p \<noteq> [])"
  proof (intro allI impI)
    fix p :: nat assume "1 \<le> p \<and> p < 1 + 1"
    then have "p = 1" by auto
    then show "\<exists>r. search_metadata portrait_service (page_request self ''a5'' p) = Inr r \<and>
           page_items_of r = (\<lambda>p. [demo_asset ''p1'' 100 200]) p \<and>
           (\<lambda>p. [demo_asset ''p1'' 100 200]) p \<noteq> []"
      by (simp add: portrait_service_def page_request_def page_items_of_def demo_page_def)
  qed
  have b: "\<exists>r. search_metadata portrait_service (page_request self ''a5'' (1 + 1)) = Inr r \<and>
      page_items_of r = []"
    by (simp add: portrait_service_def page_request_def page_items_of_def demo_page_def)
  have u: "[1..<1 + 1 + 1] = [1, 2::nat]" "[1..<1 + 1] = [1::nat]"
    by (simp_all add: upt_conv_Cons)
  show ?thesis
    using fetch_pages_run [OF a b, of "[]" "[]"] unfolding u
    by simp
qed

lemma portrait_ids:
  "get_asset_ids portrait_service self ''a5'' (Some ''vertical'') =
     Some ([Http (page_request self ''a5'' 1), Http (page_request self ''a5'' 2)], Inr [''p1''])"
  unfolding get_asset_ids_def portrait_pages
  by (simp add: get_aligned_images_def exif_sizes_def demo_asset_def)

lemma portrait_get_image:
  "get_image portrait_service (demo_provider (Some ''vertical'')) demo_rng ''Portraits''
       (Some ''vertical'') =
     Some ([Http (GET ''http://nas/api/albums'' ''secret''),
            Http (page_request (demo_provider (Some ''vertical'')) ''a5'' 1),
            Http (page_request (demo_provider (Some ''vertical'')) ''a5'' 2),
            Http (asset_request (demo_provider (Some ''vertical'')) ''p1'')],
           Inr (Some (demo_image ''p1'' 100 200)))"
proof -
  have a: "get_album_id portrait_service (demo_provider (Some ''vertical'')) ''Portraits'' =
     ([Http (GET ''http://nas/api/albums'' ''secret'')], Inr ''a5'')"
    by (simp add: get_album_id_def portrait_service_def demo_provider_def)
  have d: "download_original portrait_service
      (asset_request (demo_provider (Some ''vertical'')) ''p1'') = Inr (demo_image ''p1'' 100 200)"
    by (simp add: portrait_service_def demo_image_def)
  have l: "download_loop portrait_service (demo_provider (Some ''vertical'')) demo_rng
      (Some ''vertical'') [] eff 0 [''p1''] =
      ([] @ [[''p1'']], eff @ [Http (asset_request (demo_provider (Some ''vertical'')) ''p1'')],
       Inr (demo_image ''p1'' 100 200))" for eff
    by (rule download_loop_accept [OF demo_rng_choice d]) simp
  show ?thesis
    unfolding get_image_def a by (simp add: portrait_ids l)
qed

section \<open>The claims\<close>

text \<open>
  C1. In the download loop of \<^verbatim>\<open>get_image\<close>, the asset picked is the candidate at
  the index the generator's draw gives modulo the length of the candidate list. After it
  was downloaded: with more than one candidate and pixels that do not match the
  orientation, the loop goes on with the first occurrence of that ID taken out of the
  list (all other IDs keep their number of occurrences; the ID is gone from the
  candidates exactly when it occurred once, and always when the IDs are distinct) and
  with the next draw, which picks from what remains in the same way; with more than one
  candidate and matching pixels the download is returned; with exactly one candidate the
  download is returned whatever its pixels are.
\<close>

theorem download_loop_step:
  assumes "choice rng k asset_ids = Inr asset_id"
    and "download_original svc (asset_request self asset_id) = Inr img"
  shows "asset_ids \<noteq> [] \<and> asset_id = asset_ids ! (rng k mod length asset_ids) \<and>
         (1 < length asset_ids \<and> \<not> pixel_aligned orientation img \<longrightarrow>
            download_loop svc self rng orientation seen eff k asset_ids =
              download_loop svc self rng orientation (seen @ [asset_ids])
                (eff @ [Http (asset_request self asset_id)]) (k + 1)
                (remove1 asset_id asset_ids) \<and>
            (\<forall>x. count_list (remove1 asset_id asset_ids) x =
                 (if x = asset_id then count_list asset_ids x - 1 else count_list asset_ids x)) \<and>
            (asset_id \<notin> set (remove1 asset_id asset_ids) \<longleftrightarrow>
               count_list asset_ids asset_id = 1) \<and>
            (distinct asset_ids \<longrightarrow>
               set (remove1 asset_id asset_ids) = set asset_ids - {asset_id}) \<and>
            remove1 asset_id asset_ids \<noteq> [] \<and>
            choice rng (k + 1) (remove1 asset_id asset_ids) =
              Inr (remove1 asset_id asset_ids !
                     (rng (k + 1) mod length (remove1 asset_id asset_ids)))) \<and>
         (1 < length asset_ids \<and> pixel_aligned orientation img \<longrightarrow>
            download_loop svc self rng orientation seen eff k asset_ids =
              (seen @ [asset_ids], eff @ [Http (asset_request self asset_id)], Inr img)) \<and>
         (length asset_ids = 1 \<longrightarrow>
            download_loop svc self rng orientation seen eff k asset_ids =
              (seen @ [asset_ids], eff @ [Http (asset_request self asset_id)], Inr img))"
proof -
  have ne: "asset_ids \<noteq> []"
    using assms(1) by (auto simp: choice_def split: if_splits)
  have pick: "asset_id = asset_ids ! (rng k mod length asset_ids)"
    using assms(1) ne by (simp add: choice_def)
  have mem: "asset_id \<in> set asset_ids"
    using assms(1) by (rule choice_mem)
  have retry: "download_loop svc self rng orientation seen eff k asset_ids =
          download_loop svc self rng orientation (seen @ [asset_ids])
            (eff @ [Http (asset_request self asset_id)]) (k + 1) (remove1 asset_id asset_ids)"
    if "1 < length asset_ids \<and> \<not> pixel_aligned orientation img"
    using assms that by (simp add: download_loop_retry)
  have cnt: "\<forall>x. count_list (remove1 asset_id asset_ids) x =
          (if x = asset_id then count_list asset_ids x - 1 else count_list asset_ids x)"
    using mem by (simp add: count_list_remove1)
  have gone: "asset_id \<notin> set (remove1 asset_id asset_ids) \<longleftrightarrow>
      count_list asset_ids asset_id = 1"
    using mem by (rule count_list_one_iff)
  have dist: "distinct asset_ids \<longrightarrow>
      set (remove1 asset_id asset_ids) = set asset_ids - {asset_id}"
    by simp
  have rest: "remove1 asset_id asset_ids \<noteq> []" if "1 < length asset_ids"
  proof -
    have "length (remove1 asset_id asset_ids) = length asset_ids - 1"
      using mem by (simp add: length_remove1)
    with that show ?thesis by auto
  qed
  have nxt: "choice rng (k + 1) (remove1 asset_id asset_ids) =
      Inr (remove1 asset_id asset_ids ! (rng (k + 1) mod length (remove1 asset_id asset_ids)))"
    if "1 < length asset_ids"
    using rest [OF that] by (simp add: choice_def)
  have acc1: "download_loop svc self rng orientation seen eff k asset_ids =
      (seen @ [asset_ids], eff @ [Http (asset_request self asset_id)], Inr img)"
    if "1 < length asset_ids \<and> pixel_aligned orientation img"
    using assms that by (simp add: download_loop_accept)
  have acc2: "download_loop svc self rng orientation seen eff k asset_ids =
      (seen @ [asset_ids], eff @ [Http (asset_request self asset_id)], Inr img)"
    if "length asset_ids = 1"
    using assms that by (simp add: download_loop_accept)
  show ?thesis
    using ne pick retry cnt gone dist rest nxt acc1 acc2 by blast
qed

theorem download_loop_step_witness:
  "[''w2'', ''w1''] \<noteq> [] \<and> ''w2'' = [''w2'', ''w1''] ! (demo_rng 0 mod length [''w2'', ''w1'']) \<and>
   download_loop demo_service (demo_provider None) demo_rng (Some ''horizontal'') [] [] 0
       [''w2'', ''w1''] =
     download_loop demo_service (demo_provider None) demo_rng (Some ''horizontal'')
       [[''w2'', ''w1'']] [Http (asset_request (demo_provider None) ''w2'')] 1 [''w1''] \<and>
   ''w2'' \<notin> set (remove1 ''w2'' [''w2'', ''w1'']) \<and>
   choice demo_rng 1 [''w1''] = Inr ''w1'' \<and>
   download_loop demo_service (demo_provider None) demo_rng (Some ''horizontal'') [] [] 0
       [''w1'', ''w2''] =
     ([[''w1'', ''w2'']], [Http (asset_request (demo_provider None) ''w1'')],
      Inr (demo_image ''w1'' 4000 3000)) \<and>
   download_loop demo_service (demo_provider None) demo_rng (Some ''vertical'') [] [] 0
       [''t1''] =
     ([[''t1'']], [Http (asset_request (demo_provider None) ''t1'')],
      Inr (demo_image ''t1'' 4000 3000)) \<and>
   \<not> pixel_aligned (Some ''vertical'') (demo_image ''t1'' 4000 3000)"
proof -
  have a: "[''w2'', ''w1''] \<noteq> [] \<and>
      ''w2'' = [''w2'', ''w1''] ! (demo_rng 0 mod length [''w2'', ''w1'']) \<and>
      download_loop demo_service (demo_provider None) demo_rng (Some ''horizontal'') [] [] 0
       [''w2'', ''w1''] =
     download_loop demo_service (demo_provider None) demo_rng (Some ''horizontal'')
       [[''w2'', ''w1'']] [Http (asset_request (demo_provider None) ''w2'')] 1 [''w1''] \<and>
     ''w2'' \<notin> set (remove1 ''w2'' [''w2'', ''w1'']) \<and>
     choice demo_rng 1 [''w1''] = Inr ''w1''"
    using download_loop_step [where rng = demo_rng and k = 0 and asset_ids = "[''w2'', ''w1'']"
        and asset_id = "''w2''" and svc = demo_service and self = "demo_provider None"
        and img = "demo_image ''w2'' 1080 1920" and orientation = "Some ''horizontal''"
        and seen = "[]" and eff = "[]"]
    by (simp add: demo_rng_choice demo_download demo_pixels)
  have b: "download_loop demo_service (demo_provider None) demo_rng (Some ''horizontal'') [] [] 0
       [''w1'', ''w2''] =
     ([[''w1'', ''w2'']], [Http (asset_request (demo_provider None) ''w1'')],
      Inr (demo_image ''w1'' 4000 3000))"
    using download_loop_step [where rng = demo_rng and k = 0 and asset_ids = "[''w1'', ''w2'']"
        and asset_id = "''w1''" and svc = demo_service and self = "demo_provider None"
        and img = "demo_image ''w1'' 4000 3000" and orientation = "Some ''horizontal''"
        and seen = "[]" and eff = "[]"]
    by (simp add: demo_rng_choice demo_download demo_pixels)
  have c: "download_loop demo_service (demo_provider None) demo_rng (Some ''vertical'') [] [] 0
       [''t1''] =
     ([[''t1'']], [Http (asset_request (demo_provider None) ''t1'')],
      Inr (demo_image ''t1'' 4000 3000))"
    using download_loop_step [where rng = demo_rng and k = 0 and asset_ids = "[''t1'']"
        and asset_id = "''t1''" and svc = demo_service and self = "demo_provider None"
        and img = "demo_image ''t1'' 4000 3000" and orientation = "Some ''vertical''"
        and seen = "[]" and eff = "[]"]
    by (simp add: demo_rng_choice demo_download)
  show ?thesis using a b c demo_pixels(3) by simp
qed

text \<open>
  C1 as first stated has the mismatching ID leave the candidates. The candidates are a
  list, and \<^verbatim>\<open>list.remove\<close> takes out one occurrence: when the service lists an
  asset twice, a mismatching ID stays a candidate after its removal and is downloaded
  again.
\<close>

theorem download_loop_step_counterexample:
  "download_loop demo_service (demo_provider None) demo_rng (Some ''horizontal'') [] [] 0
       [''w2'', ''w2'', ''w1''] =
     ([[''w2'', ''w2'', ''w1''], [''w2'', ''w1''], [''w1'']],
      [Http (asset_request (demo_provider None) ''w2''),
       Http (asset_request (demo_provider None) ''w2''),
       Http (asset_request (demo_provider None) ''w1'')],
      Inr (demo_image ''w1'' 4000 3000)) \<and>
   \<not> pixel_aligned (Some ''horizontal'') (demo_image ''w2'' 1080 1920) \<and>
   ''w2'' \<in> set (remove1 ''w2'' [''w2'', ''w2'', ''w1''])"
proof -
  let ?w2 = "Http (asset_request (demo_provider None) ''w2'')"
  let ?w1 = "Http (asset_request (demo_provider None) ''w1'')"
  have "download_loop demo_service (demo_provider None) demo_rng (Some ''horizontal'') [] [] 0
       [''w2'', ''w2'', ''w1''] =
     download_loop demo_service (demo_provider None) demo_rng (Some ''horizontal'')
       ([] @ [[''w2'', ''w2'', ''w1'']]) ([] @ [?w2]) (0 + 1)
       (remove1 ''w2'' [''w2'', ''w2'', ''w1''])"
    by (rule download_loop_retry [OF demo_rng_choice demo_download(2)])
       (simp_all add: demo_pixels)
  also have "\<dots> =
     download_loop demo_service (demo_provider None) demo_rng (Some ''horizontal'')
       [[''w2'', ''w2'', ''w1'']] [?w2] 1 [''w2'', ''w1'']"
    by simp
  also have "\<dots> =
     download_loop demo_service (demo_provider None) demo_rng (Some ''horizontal'')
       ([[''w2'', ''w2'', ''w1'']] @ [[''w2'', ''w1'']]) ([?w2] @ [?w2]) (1 + 1)
       (remove1 ''w2'' [''w2'', ''w1''])"
    by (rule download_loop_retry [OF demo_rng_choice demo_download(2)])
       (simp_all add: demo_pixels)
  also have "\<dots> =
     download_loop demo_service (demo_provider None) demo_rng (Some ''horizontal'')
       [[''w2'', ''w2'', ''w1''], [''w2'', ''w1'']] [?w2, ?w2] 2 [''w1'']"
    by (simp add: numeral_2_eq_2)
  also have "\<dots> = ([[''w2'', ''w2'', ''w1''], [''w2'', ''w1'']] @ [[''w1'']], [?w2, ?w2] @ [?w1],
      Inr (demo_image ''w1'' 4000 3000))"
    by (rule download_loop_accept [OF demo_rng_choice demo_download(1)]) simp
  finally show ?thesis
    by (simp add: demo_pixels)
qed

text \<open>
  C2. If the service answers pages \<open>1\<close> to \<open>k\<close> of an album with non-empty item
  lists and page \<open>k + 1\<close> with an empty one, the pagination loop of
  \<^verbatim>\<open>get_asset_ids\<close> returns: it has sent exactly the \<open>k + 1\<close> requests for pages
  \<open>1, 2, \<dots>, k + 1\<close>, each with page size 1000 and \<^verbatim>\<open>withExif\<close>, and the list it
  hands to the orientation filter is the concatenation of the items of pages \<open>1\<close> to
  \<open>k\<close>, in order.
\<close>

theorem get_asset_ids_pagination:
  assumes "\<forall>p. 1 \<le> p \<and> p \<le> k \<longrightarrow>
             (\<exists>r. search_metadata svc (page_request self album_id p) = Inr r \<and>
                  page_items_of r = pages p \<and> pages p \<noteq> [])"
    and "\<exists>r. search_metadata svc (page_request self album_id (k + 1)) = Inr r \<and>
             page_items_of r = []"
  shows "fetch_pages svc self album_id [] [] True 1 =
           Some (map (\<lambda>p. Http (page_request self album_id p)) [1..<k + 2],
                 Inr (concat (map pages [1..<k + 1]))) \<and>
         get_asset_ids svc self album_id orientation =
           Some (map (\<lambda>p. Http (page_request self album_id p)) [1..<k + 2],
                 case get_aligned_images (concat (map pages [1..<k + 1])) orientation of
                   Inl e \<Rightarrow> Inl e
                 | Inr aligned \<Rightarrow> Inr (map id_of_asset aligned)) \<and>
         length (map (\<lambda>p. Http (page_request self album_id p)) [1..<k + 2]) = k + 1 \<and>
         (\<forall>p. page_request self album_id p =
            POST (base_url self @ ''/api/search/metadata'') (key self)
              \<lparr>albumIds = [album_id], size_body = 1000, page_body = p, withExif = True\<rparr>)"
proof -
  have a: "\<forall>p. 1 \<le> p \<and> p < 1 + k \<longrightarrow>
             (\<exists>r. search_metadata svc (page_request self album_id p) = Inr r \<and>
                  page_items_of r = pages p \<and> pages p \<noteq> [])"
    using assms(1) by auto
  have b: "\<exists>r. search_metadata svc (page_request self album_id (1 + k)) = Inr r \<and>
             page_items_of r = []"
    using assms(2) by simp
  have f: "fetch_pages svc self album_id [] [] True 1 =
           Some (map (\<lambda>p. Http (page_request self album_id p)) [1..<k + 2],
                 Inr (concat (map pages [1..<k + 1])))"
    using fetch_pages_run [OF a b, of "[]" "[]"] by simp
  show ?thesis
    unfolding get_asset_ids_def f by (simp add: page_request_def)
qed

theorem get_asset_ids_pagination_witness:
  "fetch_pages demo_service (demo_provider None) ''a2'' [] [] True 1 =
     Some ([Http (page_request (demo_provider None) ''a2'' 1),
            Http (page_request (demo_provider None) ''a2'' 2),
            Http (page_request (demo_provider None) ''a2'' 3)],
           Inr [demo_asset ''w2'' 1920 1080, demo_asset ''t1'' 3000 4000,
                demo_asset ''s1'' 2000 2000, demo_asset ''w1'' 4000 3000]) \<and>
   get_asset_ids demo_service (demo_provider None) ''a2'' (Some ''horizontal'') =
     Some ([Http (page_request (demo_provider None) ''a2'' 1),
            Http (page_request (demo_provider None) ''a2'' 2),
            Http (page_request (demo_provider None) ''a2'' 3)], Inr [''w2'', ''w1''])"
proof -
  have a: "\<forall>p. 1 \<le> p \<and> p \<le> 2 \<longrightarrow>
      (\<exists>r. search_metadata demo_service (page_request (demo_provider None) ''a2'' p) = Inr r \<and>
           page_items_of r = demo_pages ''a2'' p \<and> demo_pages ''a2'' p \<noteq> [])"
  proof (intro allI impI)
    fix p :: nat assume "1 \<le> p \<and> p \<le> 2"
    then have "p = 1 \<or> p = 2" by auto
    then show "\<exists>r. search_metadata demo_service (page_request (demo_provider None) ''a2'' p) = Inr r \<and>
           page_items_of r = demo_pages ''a2'' p \<and> demo_pages ''a2'' p \<noteq> []"
      by (auto simp: demo_service_def page_request_def page_items_of_def demo_page_def demo_pages_def)
  qed
  have b: "\<exists>r. search_metadata demo_service (page_request (demo_provider None) ''a2'' (2 + 1)) = Inr r \<and>
      page_items_of r = []"
    by (simp add: demo_service_def page_request_def page_items_of_def demo_page_def demo_pages_def)
  have u: "[1..<2 + 2] = [1, 2, 3::nat]" "[1..<2 + 1] = [1, 2::nat]"
    by (simp_all add: upt_conv_Cons)
  show ?thesis
    using get_asset_ids_pagination [OF a b, of "Some ''horizontal''"] demo_aligned_horizontal
    unfolding u by (simp add: demo_pages_def) (simp add: demo_asset_def)
qed

text \<open>
  C3. On a list of assets that all carry an EXIF width \<open>w\<close> and height \<open>h\<close>,
  \<^verbatim>\<open>get_aligned_images\<close> returns, in order, the assets with \<open>w > h\<close> for
  \<^verbatim>\<open>"horizontal"\<close> and those with \<open>w < h\<close> for \<^verbatim>\<open>"vertical"\<close>: an asset is
  kept if and only if it is in the list and its sizes compare that way, and an asset with
  \<open>w = h\<close> is kept under neither.
\<close>

theorem get_aligned_images_iff:
  assumes "\<forall>a\<in>set asset_list. exif_wh a \<noteq> None"
  shows "\<exists>kept_h kept_v.
           get_aligned_images asset_list (Some ''horizontal'') = Inr kept_h \<and>
           get_aligned_images asset_list (Some ''vertical'') = Inr kept_v \<and>
           kept_h = filter (\<lambda>a. \<exists>w h. exif_wh a = Some (w, h) \<and> w > h) asset_list \<and>
           kept_v = filter (\<lambda>a. \<exists>w h. exif_wh a = Some (w, h) \<and> w < h) asset_list \<and>
           (\<forall>a w h. exif_wh a = Some (w, h) \<longrightarrow>
              (a \<in> set kept_h \<longleftrightarrow> a \<in> set asset_list \<and> w > h) \<and>
              (a \<in> set kept_v \<longleftrightarrow> a \<in> set asset_list \<and> w < h) \<and>
              (w = h \<longrightarrow> a \<notin> set kept_h \<and> a \<notin> set kept_v))"
  using aligned_loop_horizontal [OF assms, of "[]"] aligned_loop_vertical [OF assms, of "[]"]
  by (auto simp: get_aligned_images_def)

theorem get_aligned_images_iff_witness:
  "get_aligned_images [demo_asset ''w1'' 4000 3000, demo_asset ''t1'' 3000 4000,
       demo_asset ''s1'' 2000 2000] (Some ''horizontal'') = Inr [demo_asset ''w1'' 4000 3000] \<and>
   get_aligned_images [demo_asset ''w1'' 4000 3000, demo_asset ''t1'' 3000 4000,
       demo_asset ''s1'' 2000 2000] (Some ''vertical'') = Inr [demo_asset ''t1'' 3000 4000]"
proof -
  have h: "\<forall>a\<in>set [demo_asset ''w1'' 4000 3000, demo_asset ''t1'' 3000 4000,
       demo_asset ''s1'' 2000 2000]. exif_wh a \<noteq> None"
    by (simp add: exif_wh_def exif_sizes_def demo_asset_def)
  show ?thesis
    using get_aligned_images_iff [OF h]
    by (simp add: exif_wh_def exif_sizes_def demo_asset_def)
qed



text \<open>
  C5. \<^verbatim>\<open>get_album_id\<close> on a name that no album of the service has: the claim asks
  for a not-found error; the code indexes the empty list of matches first, so what it
  raises is \<open>IndexError\<close>, and its own \<^verbatim>\<open>RuntimeError("Album ... not found.")\<close> is
  never reached.
\<close>

theorem get_album_id_no_match:
  assumes "list_albums svc (GET (base_url self @ ''/api/albums'') (key self)) = Inr albums"
    and "\<forall>a\<in>set albums. albumName a \<noteq> album"
  shows "get_album_id svc self album =
           ([Http (GET (base_url self @ ''/api/albums'') (key self))], Inl IndexError)"
proof -
  have "filter (\<lambda>a. albumName a = album) albums = []"
    using assms(2) by (simp add: filter_empty_conv)
  then show ?thesis
    using assms(1) by (simp add: get_album_id_def)
qed

theorem get_album_id_no_match_witness:
  "get_album_id demo_service (demo_provider None) ''Holidays'' =
     ([Http (GET ''http://nas/api/albums'' ''secret'')], Inl IndexError)"
proof -
  have a: "list_albums demo_service
      (GET (base_url (demo_provider None) @ ''/api/albums'') (key (demo_provider None))) =
      Inr [\<lparr>albumName = ''Family'', id_of_album = ''a1''\<rparr>,
           \<lparr>albumName = ''Trips'', id_of_album = ''a2''\<rparr>,
           \<lparr>albumName = ''Trips'', id_of_album = ''a3''\<rparr>]"
    by (simp add: demo_service_def)
  have b: "\<forall>a\<in>set [\<lparr>albumName = ''Family'', id_of_album = ''a1''\<rparr>,
           \<lparr>albumName = ''Trips'', id_of_album = ''a2''\<rparr>,
           \<lparr>albumName = ''Trips'', id_of_album = ''a3''\<rparr>]. albumName a \<noteq> ''Holidays''"
    by simp
  show ?thesis
    using get_album_id_no_match [OF a b] by (simp add: demo_provider_def)
qed

text \<open>
  C6. \<^verbatim>\<open>get_image\<close> when the album resolves and no asset passes the orientation
  filter: the claim asks for a defined error; \<^verbatim>\<open>choice\<close> on the empty list raises
  \<open>IndexError\<close> outside the \<^verbatim>\<open>try\<close>, so the exception leaves \<^verbatim>\<open>get_image\<close>,
  and \<^verbatim>\<open>generate_image\<close> with it, instead of the "Failed to load image" error that
  every failure of the two lookups ends in.
\<close>

theorem get_image_empty_candidates:
  assumes "get_album_id svc self album = (eff1, Inr album_id)"
    and "get_asset_ids svc self album_id orientation = Some (eff2, Inr [])"
  shows "get_image svc self rng album orientation = Some (eff1 @ eff2, Inl IndexError)"
  using assms by (simp add: get_image_def download_loop_empty)

theorem get_image_empty_candidates_witness:
  "get_image demo_service (demo_provider (Some ''horizontal'')) (\<lambda>k. 0) ''Family''
       (Some ''horizontal'') =
     Some ([Http (GET ''http://nas/api/albums'' ''secret''),
            Http (page_request (demo_provider (Some ''horizontal'')) ''a1'' 1),
            Http (page_request (demo_provider (Some ''horizontal'')) ''a1'' 2)],
           Inl IndexError) \<and>
   generate_image demo_service (\<lambda>k. 0) demo_imaging (demo_settings ''Family'')
       (demo_device ''horizontal'') =
     Some ([Http (GET ''http://nas/api/albums'' ''secret''),
            Http (page_request (demo_provider (Some ''horizontal'')) ''a1'' 1),
            Http (page_request (demo_provider (Some ''horizontal'')) ''a1'' 2)],
           Inl IndexError)"
proof -
  have o: "Some ''horizontal'' = Some ''horizontal'' \<or> Some ''horizontal'' = Some ''vertical''"
    by simp
  have g: "get_image demo_service (demo_provider (Some ''horizontal'')) (\<lambda>k. 0) ''Family''
       (Some ''horizontal'') =
     Some ([Http (GET ''http://nas/api/albums'' ''secret'')] @
            [Http (page_request (demo_provider (Some ''horizontal'')) ''a1'' 1),
             Http (page_request (demo_provider (Some ''horizontal'')) ''a1'' 2)],
           Inl IndexError)"
    by (rule get_image_empty_candidates [OF demo_album_id(2) demo_family_ids [OF o]])
  have p: "\<lparr>base_url = ''http://nas'', key = ''secret'',
             orientation_of = get_config (demo_device ''horizontal'') ''orientation''\<rparr> =
           demo_provider (Some ''horizontal'')"
    by (simp add: demo_provider_def demo_device_def)
  have "generate_image demo_service (\<lambda>k. 0) demo_imaging (demo_settings ''Family'')
       (demo_device ''horizontal'') =
     Some ([Http (GET ''http://nas/api/albums'' ''secret'')] @
            [Http (page_request (demo_provider (Some ''horizontal'')) ''a1'' 1),
             Http (page_request (demo_provider (Some ''horizontal'')) ''a1'' 2)],
           Inl IndexError)"
    apply (rule generate_image_empty_candidates [where api_key = "''secret''"
          and url = "''http://nas''" and album = "''Family''"])
    apply (simp_all add: demo_settings_def)
    apply (simp_all add: demo_device_def)
    using g p apply (simp add: demo_device_def)
    done
  with g show ?thesis by simp
qed

text \<open>
  C7. With \<^verbatim>\<open>padImage\<close> \<^verbatim>\<open>"true"\<close>, a background option other than
  \<^verbatim>\<open>"blur"\<close> and no \<^verbatim>\<open>backgroundColor\<close>, the claim asks for the image padded
  on white. The code hands the tuple \<^verbatim>\<open>(255, 255, 255)\<close>, not a colour string, to
  \<^verbatim>\<open>ImageColor.getcolor\<close>, so with Pillow's colour lookup \<^verbatim>\<open>generate_image\<close>
  ends in \<open>AttributeError\<close> after the download and \<^verbatim>\<open>ImageOps.pad\<close> is never
  called.
\<close>

theorem generate_image_pad_default_color:
  assumes "settings ''padImage'' = Some ''true''"
    and "settings ''backgroundOption'' \<noteq> Some ''blur''"
    and "settings ''backgroundColor'' = None"
    and "settings ''albumProvider'' = Some ''Immich''"
    and "load_env_key dc ''IMMICH_KEY'' = Some api_key" and "api_key \<noteq> []"
    and "settings ''url'' = Some url" and "url \<noteq> []"
    and "settings ''album'' = Some album" and "album \<noteq> []"
    and "get_image svc \<lparr>base_url = url, key = api_key, orientation_of = get_config dc ''orientation''\<rparr>
           rng album (get_config dc ''orientation'') = Some (eff, Inr (Some img))"
    and "ImageColor_getcolor lib = pillow_getcolor colormap"
  shows "generate_image svc rng lib settings dc = Some (eff, Inl AttributeError)"
  using assms
  by (simp add: generate_image_def immich_case_def post_process_def truthy_def
      pillow_getcolor_def Let_def)

theorem generate_image_pad_default_color_witness:
  "generate_image portrait_service demo_rng pillow_imaging pad_settings square_device =
     Some ([Http (GET ''http://nas/api/albums'' ''secret''),
            Http (page_request (demo_provider (Some ''vertical'')) ''a5'' 1),
            Http (page_request (demo_provider (Some ''vertical'')) ''a5'' 2),
            Http (asset_request (demo_provider (Some ''vertical'')) ''p1'')],
           Inl AttributeError) \<and>
   get_resolution square_device = (300, 300) \<and>
   pad_settings ''backgroundColor'' = None"
proof -
  have g: "get_image portrait_service
      \<lparr>base_url = ''http://nas'', key = ''secret'',
        orientation_of = get_config square_device ''orientation''\<rparr>
      demo_rng ''Portraits'' (get_config square_device ''orientation'') =
     Some ([Http (GET ''http://nas/api/albums'' ''secret''),
            Http (page_request (demo_provider (Some ''vertical'')) ''a5'' 1),
            Http (page_request (demo_provider (Some ''vertical'')) ''a5'' 2),
            Http (asset_request (demo_provider (Some ''vertical'')) ''p1'')],
           Inr (Some (demo_image ''p1'' 100 200)))"
    using portrait_get_image by (simp add: square_device_def demo_provider_def)
  have s: "pad_settings ''padImage'' = Some ''true''"
      "pad_settings ''backgroundOption'' \<noteq> Some ''blur''"
      "pad_settings ''backgroundColor'' = None"
      "pad_settings ''albumProvider'' = Some ''Immich''"
      "pad_settings ''url'' = Some ''http://nas''"
      "pad_settings ''album'' = Some ''Portraits''"
    by (simp_all add: pad_settings_def)
  have k: "load_env_key square_device ''IMMICH_KEY'' = Some ''secret''"
    by (simp add: square_device_def)
  have n: "''secret'' \<noteq> []" "''http://nas'' \<noteq> []" "''Portraits'' \<noteq> []" by simp_all
  have p: "ImageColor_getcolor pillow_imaging =
      pillow_getcolor [''white'' \<mapsto> (255, 255, 255), ''black'' \<mapsto> (0, 0, 0)]"
    by (simp add: pillow_imaging_def)
  show ?thesis
    using generate_image_pad_default_color [OF s(1) s(2) s(3) s(4) k n(1) s(5) n(2) s(6) n(3) g p]
      s(3)
    by (simp add: square_device_def)
qed

text \<open>
  C8. When \<^verbatim>\<open>padImage\<close> is not the string \<^verbatim>\<open>"true"\<close> and the provider
  returned an image, \<^verbatim>\<open>generate_image\<close> runs the OS command
  \<^verbatim>\<open>sudo shutdown now\<close> as its last effect, after the HTTP requests, and returns the
  downloaded image unchanged.
\<close>

theorem generate_image_shutdown:
  assumes "settings ''padImage'' \<noteq> Some ''true''"
    and "settings ''albumProvider'' = Some ''Immich''"
    and "load_env_key dc ''IMMICH_KEY'' = Some api_key" and "api_key \<noteq> []"
    and "settings ''url'' = Some url" and "url \<noteq> []"
    and "settings ''album'' = Some album" and "album \<noteq> []"
    and "get_image svc \<lparr>base_url = url, key = api_key, orientation_of = get_config dc ''orientation''\<rparr>
           rng album (get_config dc ''orientation'') = Some (eff, Inr (Some img))"
  shows "generate_image svc rng lib settings dc =
           Some (eff @ [System ''sudo shutdown now''], Inr img)"
  using assms by (simp add: generate_image_def immich_case_def post_process_def)

theorem generate_image_shutdown_witness:
  "generate_image demo_service (\<lambda>k. 0) demo_imaging (demo_settings ''Trips'')
       (demo_device ''horizontal'') =
     Some ([Http (GET ''http://nas/api/albums'' ''secret''),
            Http (page_request (demo_provider (Some ''horizontal'')) ''a2'' 1),
            Http (page_request (demo_provider (Some ''horizontal'')) ''a2'' 2),
            Http (page_request (demo_provider (Some ''horizontal'')) ''a2'' 3),
            Http (asset_request (demo_provider (Some ''horizontal'')) ''w2''),
            Http (asset_request (demo_provider (Some ''horizontal'')) ''w1''),
            System ''sudo shutdown now''],
           Inr (demo_image ''w1'' 4000 3000))"
proof -
  have p: "\<lparr>base_url = ''http://nas'', key = ''secret'',
             orientation_of = get_config (demo_device ''horizontal'') ''orientation''\<rparr> =
           demo_provider (Some ''horizontal'')"
    by (simp add: demo_provider_def demo_device_def)
  have o: "get_config (demo_device ''horizontal'') ''orientation'' = Some ''horizontal''"
    by (simp add: demo_device_def)
  have g: "get_image demo_service
      \<lparr>base_url = ''http://nas'', key = ''secret'',
        orientation_of = get_config (demo_device ''horizontal'') ''orientation''\<rparr>
      (\<lambda>k. 0) ''Trips'' (get_config (demo_device ''horizontal'') ''orientation'') =
     Some ([Http (GET ''http://nas/api/albums'' ''secret''),
            Http (page_request (demo_provider (Some ''horizontal'')) ''a2'' 1),
            Http (page_request (demo_provider (Some ''horizontal'')) ''a2'' 2),
            Http (page_request (demo_provider (Some ''horizontal'')) ''a2'' 3),
            Http (asset_request (demo_provider (Some ''horizontal'')) ''w2''),
            Http (asset_request (demo_provider (Some ''horizontal'')) ''w1'')],
           Inr (Some (demo_image ''w1'' 4000 3000)))"
    using demo_get_image by (simp add: demo_device_def demo_provider_def)
  have s: "demo_settings ''Trips'' ''padImage'' \<noteq> Some ''true''"
      "demo_settings ''Trips'' ''albumProvider'' = Some ''Immich''"
      "demo_settings ''Trips'' ''url'' = Some ''http://nas''"
      "demo_settings ''Trips'' ''album'' = Some ''Trips''"
    by (simp_all add: demo_settings_def)
  have k: "load_env_key (demo_device ''horizontal'') ''IMMICH_KEY'' = Some ''secret''"
    by (simp add: demo_device_def)
  have n: "''secret'' \<noteq> []" "''http://nas'' \<noteq> []" "''Trips'' \<noteq> []" by simp_all
  show ?thesis
    using generate_image_shutdown [OF s(1) s(2) k n(1) s(3) n(2) s(4) n(3) g, of demo_imaging]
    by simp
qed

text \<open>
  C9. The candidate list the download loop starts from is the output of the
  orientation filter, and the list at the head of every iteration is drawn from it:
  every ID in it is the ID of an asset of the album whose EXIF sizes match the requested
  orientation. An image the loop returns has matching pixels, unless the last candidate
  list had exactly one member.
\<close>

theorem candidates_exif_invariant:
  assumes "get_asset_ids svc self album_id orientation = Some (eff0, Inr asset_ids)"
    and "download_loop svc self rng orientation [] eff k asset_ids = (seen, eff', r)"
  shows "\<exists>all_items.
           fetch_pages svc self album_id [] [] True 1 = Some (eff0, Inr all_items) \<and>
           seen \<noteq> [] \<and> hd seen = asset_ids \<and>
           (\<forall>cands\<in>set seen. \<forall>i\<in>set cands.
              \<exists>a\<in>set all_items. id_of_asset a = i \<and> exif_matches orientation a) \<and>
           (\<forall>img. r = Inr img \<longrightarrow> pixel_aligned orientation img \<or> length (last seen) = 1)"
proof -
  from get_asset_ids_sound [OF assms(1)] obtain all_items where
    f: "fetch_pages svc self album_id [] [] True 1 = Some (eff0, Inr all_items)"
    and m: "\<forall>i\<in>set asset_ids. \<exists>a\<in>set all_items. id_of_asset a = i \<and> exif_matches orientation a"
    by blast
  from download_loop_seen [OF assms(2)] have
    ne: "seen \<noteq> []" and h: "hd seen = asset_ids"
    and sub: "\<forall>c\<in>set seen. set c \<subseteq> set asset_ids"
    and acc: "\<forall>img. r = Inr img \<longrightarrow> pixel_aligned orientation img \<or> length (last seen) = 1"
    by simp_all
  have inv: "\<forall>cands\<in>set seen. \<forall>i\<in>set cands.
      \<exists>a\<in>set all_items. id_of_asset a = i \<and> exif_matches orientation a"
    using sub m by blast
  show ?thesis using f ne h inv acc by blast
qed

theorem candidates_exif_invariant_witness:
  "\<exists>all_items.
     fetch_pages demo_service (demo_provider None) ''a2'' [] [] True 1 =
       Some ([Http (page_request (demo_provider None) ''a2'' 1),
              Http (page_request (demo_provider None) ''a2'' 2),
              Http (page_request (demo_provider None) ''a2'' 3)], Inr all_items) \<and>
     [[''w2'', ''w1''], [''w1'']] \<noteq> [] \<and>
     hd [[''w2'', ''w1''], [''w1'']] = [''w2'', ''w1''] \<and>
     (\<forall>cands\<in>set [[''w2'', ''w1''], [''w1'']]. \<forall>i\<in>set cands.
        \<exists>a\<in>set all_items. id_of_asset a = i \<and> exif_matches (Some ''horizontal'') a)"
proof -
  show ?thesis
    using candidates_exif_invariant [OF demo_trips_ids_horizontal demo_loop_horizontal]
    by blast
qed

text \<open>
  C10. When the \<^verbatim>\<open>albumProvider\<close> setting is missing or is not
  \<^verbatim>\<open>"Immich"\<close>, \<^verbatim>\<open>generate_image\<close> has no effect on the outside (no request, no
  command) and raises \<^verbatim>\<open>RuntimeError("Failed to load image, please check logs.")\<close>.
\<close>

theorem generate_image_other_provider:
  assumes "settings ''albumProvider'' \<noteq> Some ''Immich''"
  shows "generate_image svc rng lib settings dc =
           Some ([], Inl (RuntimeError ''Failed to load image, please check logs.''))"
  using assms by (simp add: generate_image_def failed_to_load_def)

theorem generate_image_other_provider_witness:
  "generate_image demo_service (\<lambda>k. 0) demo_imaging Map.empty (demo_device ''horizontal'') =
     Some ([], Inl (RuntimeError ''Failed to load image, please check logs.'')) \<and>
   generate_image demo_service (\<lambda>k. 0) demo_imaging
       ((demo_settings ''Trips'')(''albumProvider'' \<mapsto> ''Google'')) (demo_device ''horizontal'') =
     Some ([], Inl (RuntimeError ''Failed to load image, please check logs.''))"
proof -
  have a: "Map.empty ''albumProvider'' \<noteq> Some ''Immich''" by simp
  have b: "((demo_settings ''Trips'')(''albumProvider'' \<mapsto> ''Google'')) ''albumProvider'' \<noteq>
      Some ''Immich''" by simp
  show ?thesis
    using generate_image_other_provider [where settings = Map.empty and svc = demo_service
        and rng = "\<lambda>k. 0" and lib = demo_imaging and dc = "demo_device ''horizontal''"]
      generate_image_other_provider [where svc = demo_service
        and settings = "(demo_settings ''Trips'')(''albumProvider'' \<mapsto> ''Google'')"
        and rng = "\<lambda>k. 0" and lib = demo_imaging and dc = "demo_device ''horizontal''"]
      a b
    by simp
qed

end
